theory Spec2Isabelle
  imports Complex_Main
begin

section \<open>JavaScript numbers\<close>

text \<open>
  A JavaScript \<open>number\<close> is a finite value, one of the two infinities, or NaN.
  The special values follow IEEE 754 as JavaScript does: any operation on NaN gives NaN,
  \<open>\<infinity> - \<infinity>\<close>, \<open>0 * \<infinity>\<close>, \<open>0 / 0\<close> and \<open>\<infinity> / \<infinity>\<close> give NaN, a nonzero finite value
  divided by zero gives an infinity, and a finite result too large for a double
  overflows to an infinity. Below the overflow threshold a finite result is kept exact:
  rounding is left out, and there is one zero instead of the two signed ones. No
  operation raises.
\<close>

datatype number = NaN | NegInf | Fin real | PosInf

text \<open>
  Round-to-nearest turns a result of magnitude \<open>2^1024 - 2^970\<close> or more (half a unit
  in the last place above the largest double) into an infinity.
\<close>

definition overflow_threshold :: real where
  "overflow_threshold = 2 ^ 1024 - 2 ^ 970"

definition js_number :: "real \<Rightarrow> number" where
  "js_number r =
     (if overflow_threshold \<le> r then PosInf
      else if r \<le> - overflow_threshold then NegInf
      else Fin r)"

fun js_neg :: "number \<Rightarrow> number" where
  "js_neg NaN = NaN"
| "js_neg NegInf = PosInf"
| "js_neg (Fin a) = Fin (- a)"
| "js_neg PosInf = NegInf"

fun js_add :: "number \<Rightarrow> number \<Rightarrow> number" where
  "js_add NaN b = NaN"
| "js_add a NaN = NaN"
| "js_add (Fin a) (Fin b) = js_number (a + b)"
| "js_add (Fin a) b = b"
| "js_add a (Fin b) = a"
| "js_add PosInf PosInf = PosInf"
| "js_add NegInf NegInf = NegInf"
| "js_add PosInf NegInf = NaN"
| "js_add NegInf PosInf = NaN"

definition js_sub :: "number \<Rightarrow> number \<Rightarrow> number" where
  "js_sub a b = js_add a (js_neg b)"

text \<open>The sign of a number that is not NaN: \<open>-1\<close>, \<open>0\<close> or \<open>1\<close>.\<close>

fun js_sign :: "number \<Rightarrow> real" where
  "js_sign NaN = 0"
| "js_sign NegInf = - 1"
| "js_sign (Fin a) = sgn a"
| "js_sign PosInf = 1"

definition inf_of_sign :: "real \<Rightarrow> number" where
  "inf_of_sign s = (if s = 0 then NaN else if 0 < s then PosInf else NegInf)"

fun js_mul :: "number \<Rightarrow> number \<Rightarrow> number" where
  "js_mul NaN b = NaN"
| "js_mul a NaN = NaN"
| "js_mul (Fin a) (Fin b) = js_number (a * b)"
| "js_mul a b = inf_of_sign (js_sign a * js_sign b)"

text \<open>
  Division: a finite value over a nonzero finite value is the quotient (or an infinity
  when it overflows); over zero it is
  NaN for \<open>0 / 0\<close> and the infinity of the dividend's sign otherwise (the zero divisor
  is the positive zero, which is what \<open>m - m\<close> evaluates to); a finite value over an
  infinity is zero; an infinity over an infinity is NaN; an infinity over a finite value
  keeps or flips its sign with the divisor's.
\<close>

fun js_div :: "number \<Rightarrow> number \<Rightarrow> number" where
  "js_div NaN b = NaN"
| "js_div a NaN = NaN"
| "js_div (Fin a) (Fin b) = (if b = 0 then inf_of_sign (sgn a) else js_number (a / b))"
| "js_div (Fin a) b = Fin 0"
| "js_div a (Fin b) = inf_of_sign (js_sign a * (if b < 0 then - 1 else 1))"
| "js_div a b = NaN"

text \<open>The comparisons \<open><\<close>, \<open><=\<close> and \<open>==\<close>: false whenever an operand is NaN.\<close>

fun js_lt :: "number \<Rightarrow> number \<Rightarrow> bool" where
  "js_lt NaN b = False"
| "js_lt a NaN = False"
| "js_lt (Fin a) (Fin b) = (a < b)"
| "js_lt PosInf b = False"
| "js_lt a PosInf = True"
| "js_lt a NegInf = False"
| "js_lt NegInf b = True"

definition js_eq :: "number \<Rightarrow> number \<Rightarrow> bool" where
  "js_eq a b = (a \<noteq> NaN \<and> b \<noteq> NaN \<and> a = b)"

definition js_le :: "number \<Rightarrow> number \<Rightarrow> bool" where
  "js_le a b = (js_lt a b \<or> js_eq a b)"

text \<open>\<open>Math.min\<close> and \<open>Math.max\<close> of two arguments: NaN if either is NaN.\<close>

definition math_min :: "number \<Rightarrow> number \<Rightarrow> number" where
  "math_min a b = (if a = NaN \<or> b = NaN then NaN else if js_lt b a then b else a)"

definition math_max :: "number \<Rightarrow> number \<Rightarrow> number" where
  "math_max a b = (if a = NaN \<or> b = NaN then NaN else if js_lt a b then b else a)"

definition is_finite :: "number \<Rightarrow> bool" where
  "is_finite a = (case a of Fin v \<Rightarrow> True | _ \<Rightarrow> False)"

text \<open>
  Reading a typed array: an index out of range reads \<open>undefined\<close>, which every
  arithmetic operation and every store into a \<open>Float32Array\<close> turns into NaN. Writing a
  typed array out of range does nothing, which is what \<open>xs[i := v]\<close> does in HOL.
  Storing into a \<open>Float32Array\<close> rounds to single precision; that rounding is left out
  with the rest.
\<close>

definition js_get :: "number list \<Rightarrow> nat \<Rightarrow> number" where
  "js_get xs i = (if i < length xs then xs ! i else NaN)"

datatype error = TypeError | Error string

section \<open>ShallowTable: collecting points and normalizing them\<close>

record Vec2 =
  vx :: number
  vy :: number

record Point =
  position :: Vec2

record Bounds =
  bmin :: Vec2
  bmax :: Vec2

text \<open>
  The tile store is outside this code. A tile is what \<open>collectPoints\<close> reads of it:
  the names of its loaded columns and the rows of its record batch; the deeptable is the
  list of tiles in the order \<open>visit\<close> yields them, once \<open>ready\<close> has resolved.
\<close>

record Row =
  row_x :: number
  row_y :: number

record Tile =
  loaded_columns :: "string list"
  record_batch :: "Row list"

definition hasLoadedColumn :: "Tile \<Rightarrow> string \<Rightarrow> bool" where
  "hasLoadedColumn tile name = (name \<in> set (loaded_columns tile))"

record ShallowTable =
  points :: "Point list"
  bounds :: "Bounds option"

text \<open>The running minima and maxima and the points pushed so far.\<close>

record Collect =
  minX :: number
  minY :: number
  maxX :: number
  maxY :: number
  pushed :: "Point list"

definition collect_init :: Collect where
  "collect_init = \<lparr>minX = PosInf, minY = PosInf, maxX = NegInf, maxY = NegInf, pushed = []\<rparr>"

definition collect_row :: "Collect \<Rightarrow> Row \<Rightarrow> Collect" where
  "collect_row c row =
     \<lparr>minX = math_min (minX c) (row_x row),
      minY = math_min (minY c) (row_y row),
      maxX = math_max (maxX c) (row_x row),
      maxY = math_max (maxY c) (row_y row),
      pushed = pushed c @ [\<lparr>position = \<lparr>vx = row_x row, vy = row_y row\<rparr>\<rparr>]\<rparr>"

definition collect_tile :: "Collect \<Rightarrow> Tile \<Rightarrow> Collect" where
  "collect_tile c tile =
     (if \<not> hasLoadedColumn tile ''x'' \<or> \<not> hasLoadedColumn tile ''y'' then c
      else foldl collect_row c (record_batch tile))"

text \<open>\<open>collectPoints\<close> returns the points and leaves them and the bounds in the table.\<close>

definition collectPoints :: "Tile list \<Rightarrow> ShallowTable \<Rightarrow> Point list \<times> ShallowTable" where
  "collectPoints tiles st =
     (let c = foldl collect_tile collect_init tiles;
          b = \<lparr>bmin = \<lparr>vx = minX c, vy = minY c\<rparr>, bmax = \<lparr>vx = maxX c, vy = maxY c\<rparr>\<rparr>
      in (pushed c, st\<lparr>points := pushed c, bounds := Some b\<rparr>))"

definition new_ShallowTable :: ShallowTable where
  "new_ShallowTable = \<lparr>points = [], bounds = None\<rparr>"

definition getBounds :: "ShallowTable \<Rightarrow> error + Bounds" where
  "getBounds st =
     (case bounds st of
        None \<Rightarrow> Inl (Error ''Must call collectPoints first'')
      | Some b \<Rightarrow> Inr b)"

definition normalizeCoordinate :: "number \<Rightarrow> number \<Rightarrow> number \<Rightarrow> number" where
  "normalizeCoordinate v lo hi =
     (let normalized = js_div (js_sub v lo) (js_sub hi lo)
      in js_sub (js_mul normalized (Fin 2)) (Fin 1))"

text \<open>
  The \<open>forEach\<close> of \<open>getNormalizedPointsArray\<close>: point \<open>i\<close> is written at \<open>2 i\<close> and
  \<open>2 i + 1\<close>. With no bounds, \<open>this.bounds!.min\<close> is a property read of \<open>null\<close>, a
  TypeError at the first point; with no points nothing is read.
\<close>

fun fill_normalized :: "Bounds \<Rightarrow> nat \<Rightarrow> Point list \<Rightarrow> number list \<Rightarrow> number list" where
  "fill_normalized b i [] array = array"
| "fill_normalized b i (p # ps) array =
     (let x = normalizeCoordinate (vx (position p)) (vx (bmin b)) (vx (bmax b));
          y = normalizeCoordinate (vy (position p)) (vy (bmin b)) (vy (bmax b))
      in fill_normalized b (i + 1) ps (array[i * 2 := x, i * 2 + 1 := y]))"

definition getNormalizedPointsArray :: "ShallowTable \<Rightarrow> error + number list" where
  "getNormalizedPointsArray st =
     (let array = replicate (length (points st) * 2) (Fin 0)
      in if points st = [] then Inr array
         else (case bounds st of
                 None \<Rightarrow> Inl TypeError
               | Some b \<Rightarrow> Inr (fill_normalized b 0 (points st) array)))"

section \<open>The GPU device, as far as the renderers use it\<close>

text \<open>
  The WebGPU binding is outside this code. A device is modelled by what the renderers
  do with it: buffers are allocated (a fresh handle, zero-filled contents of the given
  number of floats), written from offset 0, and bound in a render pass that is submitted
  to the queue. A write longer than the buffer is a validation error of the device: it
  is dropped and raises nothing.
\<close>

datatype Topology = point_list | triangle_list

datatype GPURenderPipeline = Pipeline Topology

datatype GPUCanvasContext = CanvasContext

record RenderPass =
  pass_pipeline :: GPURenderPipeline
  pass_vertexBuffers :: "nat list"
  pass_draw :: real

record GPUDevice =
  memory :: "nat \<Rightarrow> number list option"
  next_buffer :: nat
  submitted :: "RenderPass list"

definition createBuffer :: "GPUDevice \<Rightarrow> nat \<Rightarrow> nat \<times> GPUDevice" where
  "createBuffer dev n =
     (next_buffer dev,
      dev\<lparr>memory := (memory dev)(next_buffer dev \<mapsto> replicate n (Fin 0)),
          next_buffer := next_buffer dev + 1\<rparr>)"

definition writeBuffer :: "GPUDevice \<Rightarrow> nat \<Rightarrow> number list \<Rightarrow> GPUDevice" where
  "writeBuffer dev h data =
     (case memory dev h of
        None \<Rightarrow> dev
      | Some old \<Rightarrow>
          if length data \<le> length old
          then dev\<lparr>memory := (memory dev)(h \<mapsto> data @ drop (length data) old)\<rparr>
          else dev)"

definition submit :: "GPUDevice \<Rightarrow> RenderPass \<Rightarrow> GPUDevice" where
  "submit dev pass = dev\<lparr>submitted := submitted dev @ [pass]\<rparr>"

text \<open>
  The fields every renderer class has. A field that was never assigned (or is
  \<open>null\<close>) is \<open>None\<close>; a method call on it is a TypeError. The device field holds the
  device with its state: each renderer owns its device alone.
\<close>

record Renderer =
  device :: "GPUDevice option"
  canvas_context :: "GPUCanvasContext option"
  pipeline :: "GPURenderPipeline option"
  vertexBuffer :: "nat option"

definition submissions :: "'a Renderer_scheme \<Rightarrow> nat" where
  "submissions r = (case device r of None \<Rightarrow> 0 | Some dev \<Rightarrow> length (submitted dev))"

section \<open>The point renderers: one vertex per point, and six\<close>

record PointRenderer = Renderer +
  vertexCount :: real

text \<open>
  \<open>setDataArray\<close> of the point-list renderer. The vertex count is assigned before the
  buffer is created, so it stays assigned when the device is missing and
  \<open>this.device.createBuffer\<close> raises.
\<close>

definition setDataArray :: "number list option \<Rightarrow> PointRenderer \<Rightarrow> error option \<times> PointRenderer" where
  "setDataArray pts r =
     (case pts of
        None \<Rightarrow> (None, r)
      | Some ps \<Rightarrow>
          if length ps = 0 then (None, r)
          else
            let r1 = r\<lparr>vertexCount := real (length ps) / 2\<rparr>;
                bufferSize = length ps
            in (case device r1 of
                  None \<Rightarrow> (Some TypeError, r1)
                | Some dev \<Rightarrow>
                    let (h, dev1) = createBuffer dev bufferSize;
                        r2 = r1\<lparr>vertexBuffer := Some h\<rparr>
                    in (None, r2\<lparr>device := Some (writeBuffer dev1 h ps)\<rparr>)))"

text \<open>
  \<open>render\<close> of the point-list renderer and of the quad renderer (the same text in
  both): nothing to draw without a vertex buffer or with a vertex count of zero;
  otherwise one pass with one draw of \<open>vertexCount\<close> vertices, submitted.
\<close>

definition render :: "PointRenderer \<Rightarrow> error option \<times> PointRenderer" where
  "render r =
     (case vertexBuffer r of
        None \<Rightarrow> (None, r)
      | Some vb \<Rightarrow>
          if vertexCount r = 0 then (None, r)
          else
            (case device r of
               None \<Rightarrow> (Some TypeError, r)
             | Some dev \<Rightarrow>
                 (case canvas_context r of
                    None \<Rightarrow> (Some TypeError, r)
                  | Some ctx \<Rightarrow>
                      (case pipeline r of
                         None \<Rightarrow> (Some TypeError, r)
                       | Some pl \<Rightarrow>
                           (None,
                            r\<lparr>device := Some (submit dev
                                 \<lparr>pass_pipeline = pl, pass_vertexBuffers = [vb],
                                  pass_draw = vertexCount r\<rparr>)\<rparr>)))))"

text \<open>
  The inner loop of the quad renderer's \<open>setDataArray\<close>: the six vertices of point
  \<open>i\<close>, at \<open>12 i + 2 j\<close> and \<open>12 i + 2 j + 1\<close> for \<open>j < 6\<close>.
\<close>

definition quad_vertices :: "number list \<Rightarrow> number list \<Rightarrow> nat \<Rightarrow> number list" where
  "quad_vertices ps vertexData i =
     (let x = js_get ps (i * 2);
          y = js_get ps (i * 2 + 1)
      in foldl (\<lambda>vd j. vd[i * 12 + j * 2 := x, i * 12 + j * 2 + 1 := y]) vertexData [0..<6])"

text \<open>
  \<open>numPoints\<close> is \<open>points.length / 2\<close>, a half-integer when the length is odd; the
  outer loop runs while \<open>i < numPoints\<close>, that is for the first \<open>\<lceil>numPoints\<rceil>\<close> indices.
\<close>

definition setDataArray_quad :: "number list option \<Rightarrow> PointRenderer \<Rightarrow> error option \<times> PointRenderer" where
  "setDataArray_quad pts r =
     (case pts of
        None \<Rightarrow> (None, r)
      | Some ps \<Rightarrow>
          if length ps = 0 then (None, r)
          else
            let numPoints = real (length ps) / 2;
                r1 = r\<lparr>vertexCount := numPoints * 6\<rparr>;
                vertexData0 = replicate (nat \<lfloor>numPoints * 6 * 2\<rfloor>) (Fin 0);
                vertexData = foldl (quad_vertices ps) vertexData0 [0..<nat \<lceil>numPoints\<rceil>];
                bufferSize = length vertexData
            in (case device r1 of
                  None \<Rightarrow> (Some TypeError, r1)
                | Some dev \<Rightarrow>
                    let (h, dev1) = createBuffer dev bufferSize;
                        r2 = r1\<lparr>vertexBuffer := Some h\<rparr>
                    in (None, r2\<lparr>device := Some (writeBuffer dev1 h vertexData)\<rparr>)))"

section \<open>The starfield renderer: animated opacities\<close>

record StarRenderer = Renderer +
  opacityBuffer :: "nat option"
  starOpacities :: "number list option"

text \<open>
  \<open>Math.random()\<close> is a parameter: \<open>rnd i\<close> is the value of the call in iteration
  \<open>i\<close>, a finite number in \<open>[0, 1)\<close>.
\<close>

definition targetOpacity :: "real \<Rightarrow> number" where
  "targetOpacity u = js_add (Fin 0.05) (js_mul (Fin u) (Fin 0.95))"

definition blend :: "number \<Rightarrow> number \<Rightarrow> number" where
  "blend currentOpacity target =
     js_add currentOpacity (js_mul (js_sub target currentOpacity) (Fin 0.4))"

definition opacity_loop :: "(nat \<Rightarrow> real) \<Rightarrow> number list \<Rightarrow> number list" where
  "opacity_loop rnd so =
     foldl (\<lambda>a i. a[i := blend (js_get a i) (targetOpacity (rnd i))]) so [0..<1000]"

definition updateOpacities :: "(nat \<Rightarrow> real) \<Rightarrow> StarRenderer \<Rightarrow> error option \<times> StarRenderer" where
  "updateOpacities rnd r =
     (case device r of
        None \<Rightarrow> (None, r)
      | Some dev \<Rightarrow>
          (case opacityBuffer r of
             None \<Rightarrow> (None, r)
           | Some ob \<Rightarrow>
               (case starOpacities r of
                  None \<Rightarrow> (None, r)
                | Some so \<Rightarrow>
                    let so' = opacity_loop rnd so
                    in (None, r\<lparr>starOpacities := Some so',
                                device := Some (writeBuffer dev ob so')\<rparr>))))"

text \<open>
  \<open>render\<close> of the starfield renderer: the guard, then the opacity update, a second
  write of the opacities, and one pass drawing the 1000 stars.
\<close>

definition render_star :: "(nat \<Rightarrow> real) \<Rightarrow> StarRenderer \<Rightarrow> error option \<times> StarRenderer" where
  "render_star rnd r =
     (if device r = None \<or> canvas_context r = None \<or> pipeline r = None \<or> vertexBuffer r = None
         \<or> opacityBuffer r = None \<or> starOpacities r = None
      then (None, r)
      else
        let r1 = snd (updateOpacities rnd r)
        in (case (device r1, canvas_context r1, pipeline r1, vertexBuffer r1, opacityBuffer r1,
                  starOpacities r1) of
              (Some dev, Some ctx, Some pl, Some vb, Some ob, Some so) \<Rightarrow>
                (None,
                 r1\<lparr>device := Some (submit (writeBuffer dev ob so)
                       \<lparr>pass_pipeline = pl, pass_vertexBuffers = [vb, ob],
                        pass_draw = 1000\<rparr>)\<rparr>)
            | _ \<Rightarrow> (Some TypeError, r1)))"

text \<open>\<open>n\<close> updates in a row, update \<open>k\<close> drawing its random numbers from \<open>rnd k\<close>.\<close>

fun updateOpacities_times :: "nat \<Rightarrow> (nat \<Rightarrow> nat \<Rightarrow> real) \<Rightarrow> StarRenderer \<Rightarrow> StarRenderer" where
  "updateOpacities_times 0 rnd r = r"
| "updateOpacities_times (Suc n) rnd r =
     snd (updateOpacities (rnd n) (updateOpacities_times n rnd r))"

text \<open>An opacity in the unit interval.\<close>

definition in_unit :: "number \<Rightarrow> bool" where
  "in_unit a = (case a of Fin v \<Rightarrow> 0 \<le> v \<and> v \<le> 1 | _ \<Rightarrow> False)"

section \<open>Predicates and example data for the statements\<close>

text \<open>A usable tile has both required columns loaded.\<close>

definition usable :: "Tile \<Rightarrow> bool" where
  "usable tile = (hasLoadedColumn tile ''x'' \<and> hasLoadedColumn tile ''y'')"

text \<open>
  The invariant of one axis of the collection loop, over the coordinates \<open>vs\<close> pushed
  so far: either a NaN was met and both running bounds are NaN, or no coordinate is NaN
  and each lies between the running minimum and maximum.
\<close>

definition axis_inv :: "number \<Rightarrow> number \<Rightarrow> number list \<Rightarrow> bool" where
  "axis_inv lo hi vs =
     ((lo = NaN \<and> hi = NaN \<and> NaN \<in> set vs) \<or>
      (lo \<noteq> NaN \<and> hi \<noteq> NaN \<and> (\<forall>v\<in>set vs. v \<noteq> NaN \<and> js_le lo v \<and> js_le v hi)))"

text \<open>The coordinates pushed so far, per axis, and the invariant of the whole loop.\<close>

definition xs_of :: "Collect \<Rightarrow> number list" where
  "xs_of c = map (\<lambda>p. vx (position p)) (pushed c)"

definition ys_of :: "Collect \<Rightarrow> number list" where
  "ys_of c = map (\<lambda>p. vy (position p)) (pushed c)"

definition collect_inv :: "Collect \<Rightarrow> bool" where
  "collect_inv c = (axis_inv (minX c) (maxX c) (xs_of c) \<and> axis_inv (minY c) (maxY c) (ys_of c))"

text \<open>Example data.\<close>

definition empty_tile :: Tile where
  "empty_tile = \<lparr>loaded_columns = [''x'', ''y''], record_batch = []\<rparr>"

definition line_tiles :: "Tile list" where
  "line_tiles =
     [\<lparr>loaded_columns = [''x'', ''y''],
       record_batch = [\<lparr>row_x = Fin 0, row_y = Fin 0\<rparr>, \<lparr>row_x = Fin 1, row_y = Fin 0\<rparr>]\<rparr>,
      \<lparr>loaded_columns = [''x''],
       record_batch = [\<lparr>row_x = Fin 9, row_y = Fin 9\<rparr>]\<rparr>,
      \<lparr>loaded_columns = [''y'', ''x''],
       record_batch = [\<lparr>row_x = Fin 5, row_y = Fin 0\<rparr>]\<rparr>]"

definition example_table :: ShallowTable where
  "example_table =
     \<lparr>points = [\<lparr>position = \<lparr>vx = Fin 0, vy = Fin 0\<rparr>\<rparr>,
                \<lparr>position = \<lparr>vx = Fin 5, vy = Fin 10\<rparr>\<rparr>,
                \<lparr>position = \<lparr>vx = Fin (5 / 2), vy = Fin 5\<rparr>\<rparr>],
      bounds = Some \<lparr>bmin = \<lparr>vx = Fin 0, vy = Fin 0\<rparr>, bmax = \<lparr>vx = Fin 5, vy = Fin 10\<rparr>\<rparr>\<rparr>"

definition huge :: real where
  "huge = 2 ^ 1023"

definition wide_table :: ShallowTable where
  "wide_table =
     \<lparr>points = [\<lparr>position = \<lparr>vx = Fin huge, vy = Fin huge\<rparr>\<rparr>,
                \<lparr>position = \<lparr>vx = Fin 0, vy = Fin 0\<rparr>\<rparr>],
      bounds = Some \<lparr>bmin = \<lparr>vx = Fin (- huge), vy = Fin (- huge)\<rparr>,
                      bmax = \<lparr>vx = Fin huge, vy = Fin huge\<rparr>\<rparr>\<rparr>"

definition nan_tile :: Tile where
  "nan_tile = \<lparr>loaded_columns = [''x'', ''y''], record_batch = [\<lparr>row_x = NaN, row_y = Fin 0\<rparr>]\<rparr>"

text \<open>
  The renderers as their constructors leave them, a starfield of 1000 stars at half
  opacity, a quad renderer after \<open>initialize\<close>, and a point renderer holding two points.
\<close>

definition new_StarRenderer :: StarRenderer where
  "new_StarRenderer =
     \<lparr>device = None, canvas_context = None, pipeline = None, vertexBuffer = None,
      opacityBuffer = None, starOpacities = None\<rparr>"

definition new_PointRenderer :: PointRenderer where
  "new_PointRenderer =
     \<lparr>device = None, canvas_context = None, pipeline = None, vertexBuffer = None,
      vertexCount = 0\<rparr>"

definition starfield_device :: GPUDevice where
  "starfield_device =
     \<lparr>memory = [0 \<mapsto> replicate 2000 (Fin 0), 1 \<mapsto> replicate 1000 (Fin (1 / 2))],
      next_buffer = 2, submitted = []\<rparr>"

definition dim_starfield :: StarRenderer where
  "dim_starfield =
     \<lparr>device = Some starfield_device, canvas_context = Some CanvasContext,
      pipeline = Some (Pipeline point_list), vertexBuffer = Some 0,
      opacityBuffer = Some 1, starOpacities = Some (replicate 1000 (Fin (1 / 2)))\<rparr>"

definition half_random :: "nat \<Rightarrow> nat \<Rightarrow> real" where
  "half_random k i = 1 / 2"

definition ready_quad :: PointRenderer where
  "ready_quad =
     \<lparr>device = Some \<lparr>memory = Map.empty, next_buffer = 0, submitted = []\<rparr>,
      canvas_context = Some CanvasContext, pipeline = Some (Pipeline triangle_list),
      vertexBuffer = None, vertexCount = 0\<rparr>"

definition two_points :: "number list" where
  "two_points = [Fin 0, Fin 1, Fin 2, Fin 3]"

definition loaded_points :: PointRenderer where
  "loaded_points =
     \<lparr>device = Some \<lparr>memory = [0 \<mapsto> two_points], next_buffer = 1, submitted = []\<rparr>,
      canvas_context = Some CanvasContext, pipeline = Some (Pipeline point_list),
      vertexBuffer = Some 0, vertexCount = 2\<rparr>"

section \<open>Collected points, bounds and normalization: proofs\<close>

lemma overflow_threshold_large: "3 < overflow_threshold"
  by (simp add: overflow_threshold_def)

lemma js_number_Fin: "\<bar>r\<bar> < overflow_threshold \<Longrightarrow> js_number r = Fin r"
  by (auto simp: js_number_def)

lemma js_number_small: "\<bar>r\<bar> \<le> 3 \<Longrightarrow> js_number r = Fin r"
  using overflow_threshold_large by (auto simp: js_number_def)

lemma js_number_zero: "js_number 0 = Fin 0"
  by (simp add: js_number_small)

lemma js_number_not_NaN: "js_number r \<noteq> NaN"
  by (simp add: js_number_def)

lemma js_le_trans: "js_le a b \<Longrightarrow> js_le b c \<Longrightarrow> js_le a c"
  by (cases a; cases b; cases c) (auto simp: js_le_def js_eq_def)

lemma js_le_antisym: "js_le a b \<Longrightarrow> js_le b a \<Longrightarrow> a = b"
  by (cases a; cases b) (auto simp: js_le_def js_eq_def)

lemma math_min_NaN: "(math_min a b = NaN) = (a = NaN \<or> b = NaN)"
  by (simp add: math_min_def)

lemma math_max_NaN: "(math_max a b = NaN) = (a = NaN \<or> b = NaN)"
  by (simp add: math_max_def)

lemma math_min_le: "a \<noteq> NaN \<Longrightarrow> b \<noteq> NaN \<Longrightarrow> js_le (math_min a b) a \<and> js_le (math_min a b) b"
  by (cases a; cases b) (auto simp: math_min_def js_le_def js_eq_def)

lemma math_max_ge: "a \<noteq> NaN \<Longrightarrow> b \<noteq> NaN \<Longrightarrow> js_le a (math_max a b) \<and> js_le b (math_max a b)"
  by (cases a; cases b) (auto simp: math_max_def js_le_def js_eq_def)

lemma axis_inv_step:
  assumes "axis_inv lo hi vs"
  shows "axis_inv (math_min lo v) (math_max hi v) (vs @ [v])"
proof (cases "lo = NaN \<or> v = NaN")
  case True
  with assms show ?thesis
    by (auto simp: axis_inv_def math_min_NaN math_max_NaN)
next
  case False
  with assms have ok: "lo \<noteq> NaN" "hi \<noteq> NaN" "v \<noteq> NaN"
    and old: "\<forall>w\<in>set vs. w \<noteq> NaN \<and> js_le lo w \<and> js_le w hi"
    by (auto simp: axis_inv_def)
  have m: "js_le (math_min lo v) lo" "js_le (math_min lo v) v"
    using math_min_le [OF ok(1) ok(3)] by simp_all
  have M: "js_le hi (math_max hi v)" "js_le v (math_max hi v)"
    using math_max_ge [OF ok(2) ok(3)] by simp_all
  have "\<forall>w\<in>set (vs @ [v]). w \<noteq> NaN \<and> js_le (math_min lo v) w \<and> js_le w (math_max hi v)"
    using old ok m M by (auto intro: js_le_trans)
  then show ?thesis
    using ok by (simp add: axis_inv_def math_min_NaN math_max_NaN)
qed

lemma collect_inv_init: "collect_inv collect_init"
  by (simp add: collect_inv_def collect_init_def axis_inv_def xs_of_def ys_of_def)

lemma collect_inv_row: "collect_inv c \<Longrightarrow> collect_inv (collect_row c row)"
  by (simp add: collect_inv_def collect_row_def xs_of_def ys_of_def axis_inv_step)

lemma collect_inv_rows: "collect_inv c \<Longrightarrow> collect_inv (foldl collect_row c rows)"
  by (induction rows arbitrary: c) (simp_all add: collect_inv_row)

lemma collect_inv_tile: "collect_inv c \<Longrightarrow> collect_inv (collect_tile c tile)"
  by (simp add: collect_tile_def collect_inv_rows)

lemma collect_inv_tiles: "collect_inv c \<Longrightarrow> collect_inv (foldl collect_tile c tiles)"
  by (induction tiles arbitrary: c) (simp_all add: collect_inv_tile)

lemma pushed_rows:
  "pushed (foldl collect_row c rows) =
     pushed c @ map (\<lambda>row. \<lparr>position = \<lparr>vx = row_x row, vy = row_y row\<rparr>\<rparr>) rows"
  by (induction rows arbitrary: c) (simp_all add: collect_row_def)

lemma pushed_tile:
  "pushed (collect_tile c tile) =
     pushed c @ (if usable tile
                 then map (\<lambda>row. \<lparr>position = \<lparr>vx = row_x row, vy = row_y row\<rparr>\<rparr>) (record_batch tile)
                 else [])"
  by (simp add: collect_tile_def usable_def pushed_rows)

lemma pushed_tiles:
  "pushed (foldl collect_tile c tiles) =
     pushed c @ concat (map (\<lambda>tile. map (\<lambda>row. \<lparr>position = \<lparr>vx = row_x row, vy = row_y row\<rparr>\<rparr>)
                                        (record_batch tile)) (filter usable tiles))"
  by (induction tiles arbitrary: c) (simp_all add: pushed_tile)

lemma length_pushed_tiles:
  "length (pushed (foldl collect_tile c tiles)) =
     length (pushed c) + sum_list (map (\<lambda>tile. length (record_batch tile)) (filter usable tiles))"
  by (simp add: pushed_tiles length_concat comp_def)

lemma length_fill_normalized: "length (fill_normalized b i ps arr) = length arr"
  by (induction ps arbitrary: i arr) (simp_all add: Let_def)

lemma fill_normalized_below:
  "k < 2 * i \<Longrightarrow> fill_normalized b i ps arr ! k = arr ! k"
  by (induction ps arbitrary: i arr) (simp_all add: Let_def)

lemma fill_normalized_nth:
  "j < length ps \<Longrightarrow> 2 * (i + length ps) \<le> length arr \<Longrightarrow>
   fill_normalized b i ps arr ! (2 * (i + j)) =
     normalizeCoordinate (vx (position (ps ! j))) (vx (bmin b)) (vx (bmax b)) \<and>
   fill_normalized b i ps arr ! (2 * (i + j) + 1) =
     normalizeCoordinate (vy (position (ps ! j))) (vy (bmin b)) (vy (bmax b))"
proof (induction ps arbitrary: i arr j)
  case Nil
  then show ?case by simp
next
  case (Cons p ps)
  show ?case
  proof (cases j)
    case 0
    with Cons.prems show ?thesis
      by (simp add: Let_def fill_normalized_below mult.commute)
  next
    case (Suc j')
    with Cons.prems have "j' < length ps" by simp
    moreover have "2 * (Suc i + length ps) \<le> length (arr[i * 2 := x, i * 2 + 1 := y])" for x y
      using Cons.prems by simp
    ultimately show ?thesis
      using Cons.IH [of j' "Suc i"] Suc by (simp add: Let_def)
  qed
qed

lemma getNormalizedPointsArray_Some:
  assumes "bounds st = Some b"
  shows "\<exists>arr. getNormalizedPointsArray st = Inr arr \<and> length arr = 2 * length (points st) \<and>
     (\<forall>j<length (points st).
        arr ! (2 * j) = normalizeCoordinate (vx (position (points st ! j))) (vx (bmin b)) (vx (bmax b)) \<and>
        arr ! (2 * j + 1) = normalizeCoordinate (vy (position (points st ! j))) (vy (bmin b)) (vy (bmax b)))"
proof (cases "points st = []")
  case True
  then show ?thesis by (simp add: getNormalizedPointsArray_def)
next
  case False
  have "\<forall>j<length (points st).
        fill_normalized b 0 (points st) (replicate (length (points st) * 2) (Fin 0)) ! (2 * j) =
          normalizeCoordinate (vx (position (points st ! j))) (vx (bmin b)) (vx (bmax b)) \<and>
        fill_normalized b 0 (points st) (replicate (length (points st) * 2) (Fin 0)) ! (2 * j + 1) =
          normalizeCoordinate (vy (position (points st ! j))) (vy (bmin b)) (vy (bmax b))"
    using fill_normalized_nth [of _ "points st" 0 "replicate (length (points st) * 2) (Fin 0)" b]
    by simp
  with False assms show ?thesis
    by (simp add: getNormalizedPointsArray_def length_fill_normalized)
qed

lemma unit_abs_bounds:
  fixes q :: real
  assumes "\<bar>q\<bar> \<le> 1"
  shows "\<bar>q\<bar> \<le> 3 \<and> \<bar>q * 2\<bar> \<le> 3 \<and> \<bar>q * 2 - 1\<bar> \<le> 3"
  using assms by (auto simp: abs_le_iff)

lemma normalizeCoordinate_finite:
  assumes "lo \<noteq> hi" and "\<bar>hi - lo\<bar> < overflow_threshold" and "\<bar>v - lo\<bar> \<le> \<bar>hi - lo\<bar>"
  shows "normalizeCoordinate (Fin v) (Fin lo) (Fin hi) = Fin ((v - lo) / (hi - lo) * 2 - 1)"
proof -
  let ?q = "(v - lo) / (hi - lo)"
  have d: "js_sub (Fin hi) (Fin lo) = Fin (hi - lo)"
    using assms(2) by (simp add: js_sub_def js_number_Fin)
  have n: "js_sub (Fin v) (Fin lo) = Fin (v - lo)"
    using assms(2,3) by (simp add: js_sub_def js_number_Fin)
  have q: "\<bar>?q\<bar> \<le> 1"
    using assms(1,3) by (simp add: abs_divide)
  have f: "js_number ?q = Fin ?q" "js_number (?q * 2) = Fin (?q * 2)"
    "js_number (?q * 2 - 1) = Fin (?q * 2 - 1)"
    using unit_abs_bounds [OF q] by (blast intro: js_number_small)+
  have e1: "js_div (Fin (v - lo)) (Fin (hi - lo)) = Fin ?q"
    using assms(1) f(1) by simp
  have e2: "js_mul (Fin ?q) (Fin 2) = Fin (?q * 2)"
    using f(2) by simp
  have e3: "js_sub (Fin (?q * 2)) (Fin 1) = Fin (?q * 2 - 1)"
    using f(3) by (simp add: js_sub_def)
  show ?thesis
    by (simp only: normalizeCoordinate_def Let_def n d e1 e2 e3)
qed

lemma normalizeCoordinate_degenerate: "\<not> is_finite (normalizeCoordinate v m m)"
  by (cases v; cases m)
     (auto simp: normalizeCoordinate_def js_sub_def is_finite_def inf_of_sign_def sgn_real_def
        js_number_zero js_number_def)

lemma normalizeCoordinate_same: "normalizeCoordinate m m m = NaN"
  by (cases m) (auto simp: normalizeCoordinate_def js_sub_def inf_of_sign_def js_number_zero)

lemma wide_at_max: "normalizeCoordinate (Fin huge) (Fin (- huge)) (Fin huge) = NaN"
  by (simp add: normalizeCoordinate_def js_sub_def js_number_def overflow_threshold_def huge_def)

lemma wide_at_mid: "normalizeCoordinate (Fin 0) (Fin (- huge)) (Fin huge) = Fin (- 1)"
  by (simp add: normalizeCoordinate_def js_sub_def js_number_def overflow_threshold_def huge_def)

text \<open>
  Claim C1 as stated fails. Bounds from \<open>-2^1023\<close> to \<open>2^1023\<close> (the doubles
  \<open>- huge\<close> and \<open>huge\<close>) are finite and of
  nonzero extent, but \<open>max - min\<close> overflows to an infinity: the point at \<open>bounds.max\<close>
  normalizes to NaN and the midpoint to \<open>-1\<close>. An infinite \<open>max\<close> gives NaN for the
  point at \<open>bounds.max\<close> as well.
\<close>

theorem normalize_overflow_counterexample:
  "getNormalizedPointsArray wide_table = Inr [NaN, NaN, Fin (- 1), Fin (- 1)] \<and>
   normalizeCoordinate PosInf (Fin 0) PosInf = NaN"
proof -
  have "normalizeCoordinate PosInf (Fin 0) PosInf = NaN"
    by (simp add: normalizeCoordinate_def js_sub_def)
  moreover have "getNormalizedPointsArray wide_table = Inr [NaN, NaN, Fin (- 1), Fin (- 1)]"
    by (simp add: getNormalizedPointsArray_def wide_table_def wide_at_max wide_at_mid
        eval_nat_numeral)
  ultimately show ?thesis by simp
qed

text \<open>
  Claim C1, amended. With bounds that are finite, of nonzero extent on both axes and
  with an extent \<open>max - min\<close> below the overflow threshold, and a finite point no
  farther from \<open>min\<close> than \<open>max\<close> is on each axis (every point within the bounds is),
  the normalized array holds, for the point \<open>i\<close> at \<open>(px, py)\<close>, the values
  \<open>(px - min.x) / (max.x - min.x) * 2 - 1\<close> at \<open>2 i\<close> and the same for \<open>y\<close> at
  \<open>2 i + 1\<close>; a point at \<open>bounds.min\<close> gives \<open>(-1, -1)\<close>, a point at \<open>bounds.max\<close>
  gives \<open>(1, 1)\<close>, the midpoint gives \<open>(0, 0)\<close>. Rounding is left out.
\<close>

theorem normalize_formula:
  assumes "bounds st = Some \<lparr>bmin = \<lparr>vx = Fin lox, vy = Fin loy\<rparr>, bmax = \<lparr>vx = Fin hix, vy = Fin hiy\<rparr>\<rparr>"
    and "lox \<noteq> hix" and "loy \<noteq> hiy"
    and "i < length (points st)"
    and "position (points st ! i) = \<lparr>vx = Fin px, vy = Fin py\<rparr>"
    and ext: "\<bar>hix - lox\<bar> < overflow_threshold" "\<bar>hiy - loy\<bar> < overflow_threshold"
    and near: "\<bar>px - lox\<bar> \<le> \<bar>hix - lox\<bar>" "\<bar>py - loy\<bar> \<le> \<bar>hiy - loy\<bar>"
  shows "\<exists>arr. getNormalizedPointsArray st = Inr arr \<and> length arr = 2 * length (points st) \<and>
     arr ! (2 * i) = Fin ((px - lox) / (hix - lox) * 2 - 1) \<and>
     arr ! (2 * i + 1) = Fin ((py - loy) / (hiy - loy) * 2 - 1) \<and>
     (px = lox \<and> py = loy \<longrightarrow> arr ! (2 * i) = Fin (- 1) \<and> arr ! (2 * i + 1) = Fin (- 1)) \<and>
     (px = hix \<and> py = hiy \<longrightarrow> arr ! (2 * i) = Fin 1 \<and> arr ! (2 * i + 1) = Fin 1) \<and>
     (px = (lox + hix) / 2 \<and> py = (loy + hiy) / 2 \<longrightarrow> arr ! (2 * i) = Fin 0 \<and> arr ! (2 * i + 1) = Fin 0)"
proof -
  from getNormalizedPointsArray_Some [OF assms(1)] obtain arr where
    arr: "getNormalizedPointsArray st = Inr arr" "length arr = 2 * length (points st)"
    and nth: "\<forall>j<length (points st).
        arr ! (2 * j) = normalizeCoordinate (vx (position (points st ! j))) (Fin lox) (Fin hix) \<and>
        arr ! (2 * j + 1) = normalizeCoordinate (vy (position (points st ! j))) (Fin loy) (Fin hiy)"
    by auto
  from nth assms(4,5) have
    x: "arr ! (2 * i) = Fin ((px - lox) / (hix - lox) * 2 - 1)" and
    y: "arr ! (2 * i + 1) = Fin ((py - loy) / (hiy - loy) * 2 - 1)"
    using assms(2,3) ext near by (simp_all add: normalizeCoordinate_finite)
  have f: "(v - a) / (b - a) * 2 - 1 = (if v = a then - 1 else if v = b then 1 else
             if v = (a + b) / 2 then 0 else (v - a) / (b - a) * 2 - 1)" if "a \<noteq> b" for a b v :: real
    using that by (simp add: field_simps)
  have x': "arr ! (2 * i) = Fin (if px = lox then - 1 else if px = hix then 1 else
             if px = (lox + hix) / 2 then 0 else (px - lox) / (hix - lox) * 2 - 1)"
    using x f [OF assms(2), of px] by simp
  have y': "arr ! (2 * i + 1) = Fin (if py = loy then - 1 else if py = hiy then 1 else
             if py = (loy + hiy) / 2 then 0 else (py - loy) / (hiy - loy) * 2 - 1)"
    using y f [OF assms(3), of py] by simp
  have lo: "px = lox \<and> py = loy \<longrightarrow> arr ! (2 * i) = Fin (- 1) \<and> arr ! (2 * i + 1) = Fin (- 1)"
    using x' y' by simp
  have hi: "px = hix \<and> py = hiy \<longrightarrow> arr ! (2 * i) = Fin 1 \<and> arr ! (2 * i + 1) = Fin 1"
    using x' y' assms(2,3) by simp
  have mid: "px = (lox + hix) / 2 \<and> py = (loy + hiy) / 2 \<longrightarrow>
      arr ! (2 * i) = Fin 0 \<and> arr ! (2 * i + 1) = Fin 0"
  proof
    assume m: "px = (lox + hix) / 2 \<and> py = (loy + hiy) / 2"
    with assms(2,3) have "px \<noteq> lox" "px \<noteq> hix" "py \<noteq> loy" "py \<noteq> hiy"
      by (auto simp: field_simps)
    with m x' y' show "arr ! (2 * i) = Fin 0 \<and> arr ! (2 * i + 1) = Fin 0"
      by simp
  qed
  from arr x y lo hi mid show ?thesis
    by blast
qed

theorem normalize_formula_witness:
  "\<exists>arr. getNormalizedPointsArray example_table = Inr arr \<and> length arr = 6 \<and>
     arr ! 4 = Fin 0 \<and> arr ! 5 = Fin 0"
proof -
  have h: "\<bar>5 - 0\<bar> < overflow_threshold" "\<bar>10 - 0\<bar> < overflow_threshold"
    by (simp_all add: overflow_threshold_def)
  from normalize_formula [of example_table 0 0 5 10 2 "5 / 2" 5] h show ?thesis
    by (auto simp: example_table_def)
qed

lemma collect_tiles_nothing:
  "\<forall>t\<in>set tiles. usable t \<longrightarrow> record_batch t = [] \<Longrightarrow> foldl collect_tile c tiles = c"
  by (induction tiles arbitrary: c) (auto simp: collect_tile_def usable_def)

text \<open>
  Claim C5. When no usable tile has a row, \<open>collectPoints\<close> returns no points and
  leaves the bounds at the initial limits, \<open>min = (+\<infinity>, +\<infinity>)\<close> and
  \<open>max = (-\<infinity>, -\<infinity>)\<close>; it raises nothing, and \<open>getBounds\<close> then returns these bounds.
\<close>

theorem collectPoints_no_points:
  assumes "\<forall>t\<in>set tiles. usable t \<longrightarrow> record_batch t = []"
  shows "collectPoints tiles st =
           ([], st\<lparr>points := [],
                   bounds := Some \<lparr>bmin = \<lparr>vx = PosInf, vy = PosInf\<rparr>,
                                   bmax = \<lparr>vx = NegInf, vy = NegInf\<rparr>\<rparr>\<rparr>) \<and>
         getBounds (snd (collectPoints tiles st)) =
           Inr \<lparr>bmin = \<lparr>vx = PosInf, vy = PosInf\<rparr>, bmax = \<lparr>vx = NegInf, vy = NegInf\<rparr>\<rparr>"
  using collect_tiles_nothing [OF assms, of collect_init]
  by (simp add: collectPoints_def getBounds_def collect_init_def)

theorem collectPoints_no_points_witness:
  "collectPoints [empty_tile, \<lparr>loaded_columns = [''x''], record_batch = [\<lparr>row_x = Fin 9, row_y = Fin 9\<rparr>]\<rparr>]
     new_ShallowTable =
     ([], \<lparr>points = [],
           bounds = Some \<lparr>bmin = \<lparr>vx = PosInf, vy = PosInf\<rparr>,
                           bmax = \<lparr>vx = NegInf, vy = NegInf\<rparr>\<rparr>\<rparr>)"
  using collectPoints_no_points
    [of "[empty_tile, \<lparr>loaded_columns = [''x''], record_batch = [\<lparr>row_x = Fin 9, row_y = Fin 9\<rparr>]\<rparr>]"
        new_ShallowTable]
  by (simp add: empty_tile_def usable_def hasLoadedColumn_def new_ShallowTable_def)

text \<open>
  Claim C9. \<open>getBounds\<close> on a table whose bounds were never set (the new table, or any
  table with no bounds) raises the error "Must call collectPoints first"; after
  \<open>collectPoints\<close> it returns the bounds that pass computed.
\<close>

theorem getBounds_after_collectPoints:
  "getBounds new_ShallowTable = Inl (Error ''Must call collectPoints first'') \<and>
   (bounds st = None \<longrightarrow> getBounds st = Inl (Error ''Must call collectPoints first'')) \<and>
   bounds (snd (collectPoints tiles st)) =
     Some \<lparr>bmin = \<lparr>vx = minX (foldl collect_tile collect_init tiles),
                    vy = minY (foldl collect_tile collect_init tiles)\<rparr>,
           bmax = \<lparr>vx = maxX (foldl collect_tile collect_init tiles),
                    vy = maxY (foldl collect_tile collect_init tiles)\<rparr>\<rparr> \<and>
   getBounds (snd (collectPoints tiles st)) = Inr (the (bounds (snd (collectPoints tiles st))))"
  by (simp add: getBounds_def new_ShallowTable_def collectPoints_def Let_def)

theorem getBounds_after_collectPoints_witness:
  "getBounds (new_ShallowTable\<lparr>points := [\<lparr>position = \<lparr>vx = Fin 1, vy = Fin 1\<rparr>\<rparr>]\<rparr>) =
     Inl (Error ''Must call collectPoints first'') \<and>
   getBounds (snd (collectPoints line_tiles new_ShallowTable)) =
     Inr \<lparr>bmin = \<lparr>vx = Fin 0, vy = Fin 0\<rparr>, bmax = \<lparr>vx = Fin 5, vy = Fin 0\<rparr>\<rparr>"
  using getBounds_after_collectPoints
    [of "new_ShallowTable\<lparr>points := [\<lparr>position = \<lparr>vx = Fin 1, vy = Fin 1\<rparr>\<rparr>]\<rparr>" line_tiles]
    getBounds_after_collectPoints [of new_ShallowTable line_tiles]
  by (simp add: new_ShallowTable_def line_tiles_def collect_tile_def collect_row_def
      collect_init_def hasLoadedColumn_def math_min_def math_max_def)

text \<open>
  Claim C2 as stated fails: a tile with both columns loaded and no row is usable, and
  the bounds stay at \<open>min = +\<infinity>\<close>, \<open>max = -\<infinity>\<close>, which are not ordered; and a
  NaN coordinate makes both bounds of its axis NaN, which compare false.
\<close>

theorem collectPoints_empty_tile_counterexample:
  "usable empty_tile \<and>
   bounds (snd (collectPoints [empty_tile] new_ShallowTable)) =
     Some \<lparr>bmin = \<lparr>vx = PosInf, vy = PosInf\<rparr>, bmax = \<lparr>vx = NegInf, vy = NegInf\<rparr>\<rparr> \<and>
   \<not> js_le PosInf NegInf \<and>
   usable nan_tile \<and>
   bounds (snd (collectPoints [nan_tile] new_ShallowTable)) =
     Some \<lparr>bmin = \<lparr>vx = NaN, vy = Fin 0\<rparr>, bmax = \<lparr>vx = NaN, vy = Fin 0\<rparr>\<rparr> \<and>
   \<not> js_le NaN NaN"
  by (simp add: empty_tile_def nan_tile_def usable_def hasLoadedColumn_def collectPoints_def
      collect_tile_def collect_row_def collect_init_def math_min_def math_max_def
      js_le_def js_eq_def)

lemma axis_inv_ordered:
  assumes "axis_inv lo hi vs" and "vs \<noteq> []" and "NaN \<notin> set vs"
  shows "js_le lo hi"
proof -
  from assms(2) obtain v where v: "v \<in> set vs" by (cases vs) auto
  with assms(1,3) have "js_le lo v" "js_le v hi"
    by (auto simp: axis_inv_def)
  then show ?thesis by (rule js_le_trans)
qed

lemma axis_inv_degenerate:
  assumes "axis_inv lo hi vs" and "js_eq lo hi" and "v \<in> set vs"
  shows "v = lo"
proof -
  from assms have "js_le lo v" "js_le v lo"
    by (auto simp: axis_inv_def js_eq_def)
  then show ?thesis by (simp add: js_le_antisym)
qed

text \<open>
  Claim C2, amended. For every tile source the number of points \<open>collectPoints\<close>
  returns is the sum of the row counts of the usable tiles, and a tile missing a required
  column leaves the collection as it was. When some usable tile has at least one row and
  no coordinate of a usable tile is NaN, the bounds have \<open>min.x <= max.x\<close> and
  \<open>min.y <= max.y\<close>.
\<close>

theorem collectPoints_bounds_and_count:
  assumes run: "collectPoints tiles st = (pts, st')"
  shows "points st' = pts \<and>
         length pts = sum_list (map (\<lambda>t. length (record_batch t)) (filter usable tiles)) \<and>
         (\<forall>c t. \<not> usable t \<longrightarrow> collect_tile c t = c) \<and>
         ((\<exists>t\<in>set tiles. usable t \<and> record_batch t \<noteq> []) \<and>
          (\<forall>t\<in>set tiles. usable t \<longrightarrow>
             (\<forall>row\<in>set (record_batch t). row_x row \<noteq> NaN \<and> row_y row \<noteq> NaN)) \<longrightarrow>
          (\<exists>b. bounds st' = Some b \<and>
             js_le (vx (bmin b)) (vx (bmax b)) \<and> js_le (vy (bmin b)) (vy (bmax b))))"
proof -
  let ?c = "foldl collect_tile collect_init tiles"
  have inv: "collect_inv ?c"
    by (simp add: collect_inv_tiles collect_inv_init)
  have pts: "pts = pushed ?c" and st': "st' = st\<lparr>points := pushed ?c,
      bounds := Some \<lparr>bmin = \<lparr>vx = minX ?c, vy = minY ?c\<rparr>, bmax = \<lparr>vx = maxX ?c, vy = maxY ?c\<rparr>\<rparr>\<rparr>"
    using run by (auto simp: collectPoints_def Let_def)
  have pushed: "pushed ?c = concat (map (\<lambda>tile. map (\<lambda>row. \<lparr>position = \<lparr>vx = row_x row, vy = row_y row\<rparr>\<rparr>)
                                        (record_batch tile)) (filter usable tiles))"
    by (simp add: pushed_tiles collect_init_def)
  have n: "length pts = sum_list (map (\<lambda>t. length (record_batch t)) (filter usable tiles))"
    unfolding pts by (simp add: length_pushed_tiles collect_init_def)
  have skip: "\<forall>c t. \<not> usable t \<longrightarrow> collect_tile c t = c"
    by (auto simp: collect_tile_def usable_def)
  have ordered: "js_le (minX ?c) (maxX ?c) \<and> js_le (minY ?c) (maxY ?c)"
    if some: "\<exists>t\<in>set tiles. usable t \<and> record_batch t \<noteq> []"
      and nums: "\<forall>t\<in>set tiles. usable t \<longrightarrow>
                 (\<forall>row\<in>set (record_batch t). row_x row \<noteq> NaN \<and> row_y row \<noteq> NaN)"
  proof -
    from some have ne: "pushed ?c \<noteq> []"
      unfolding pushed by auto
    have "\<forall>p\<in>set (pushed ?c). vx (position p) \<noteq> NaN \<and> vy (position p) \<noteq> NaN"
      unfolding pushed using nums by fastforce
    then have nx: "NaN \<notin> set (xs_of ?c)" and ny: "NaN \<notin> set (ys_of ?c)"
      by (auto simp: xs_of_def ys_of_def)
    have "js_le (minX ?c) (maxX ?c)"
      using inv ne nx by (auto simp: collect_inv_def xs_of_def intro: axis_inv_ordered)
    moreover have "js_le (minY ?c) (maxY ?c)"
      using inv ne ny by (auto simp: collect_inv_def ys_of_def intro: axis_inv_ordered)
    ultimately show ?thesis ..
  qed
  show ?thesis
    using n skip ordered by (simp add: st' pts)
qed

theorem collectPoints_bounds_and_count_witness:
  "(\<exists>b. bounds (snd (collectPoints line_tiles new_ShallowTable)) = Some b \<and>
        js_le (vx (bmin b)) (vx (bmax b)) \<and> js_le (vy (bmin b)) (vy (bmax b))) \<and>
   length (fst (collectPoints line_tiles new_ShallowTable)) = 3 \<and>
   length (fst (collectPoints [nan_tile, \<lparr>loaded_columns = [''y''], record_batch = record_batch nan_tile\<rparr>,
                               empty_tile] new_ShallowTable)) = 1"
  using collectPoints_bounds_and_count
    [of line_tiles new_ShallowTable "fst (collectPoints line_tiles new_ShallowTable)"
        "snd (collectPoints line_tiles new_ShallowTable)"]
    collectPoints_bounds_and_count
    [of "[nan_tile, \<lparr>loaded_columns = [''y''], record_batch = record_batch nan_tile\<rparr>, empty_tile]"
        new_ShallowTable
        "fst (collectPoints [nan_tile, \<lparr>loaded_columns = [''y''], record_batch = record_batch nan_tile\<rparr>,
                               empty_tile] new_ShallowTable)"
        "snd (collectPoints [nan_tile, \<lparr>loaded_columns = [''y''], record_batch = record_batch nan_tile\<rparr>,
                               empty_tile] new_ShallowTable)"]
  by (auto simp: line_tiles_def nan_tile_def empty_tile_def usable_def hasLoadedColumn_def)

text \<open>
  Claim C7. With \<open>max\<close> equal to \<open>min\<close> on an axis, \<open>normalizeCoordinate\<close> divides by
  zero and returns a value that is not finite (NaN for a coordinate equal to \<open>min\<close>, an
  infinity otherwise) instead of raising. After \<open>collectPoints\<close>, every coordinate of a
  degenerate axis equals \<open>min\<close>, so \<open>getNormalizedPointsArray\<close> returns an array whose
  entries on that axis are all NaN.
\<close>

theorem degenerate_axis_NaN:
  assumes run: "collectPoints tiles st = (pts, st')"
  shows "\<not> is_finite (normalizeCoordinate v m m) \<and> normalizeCoordinate m m m = NaN \<and>
     (\<exists>b arr. bounds st' = Some b \<and> getNormalizedPointsArray st' = Inr arr \<and>
        length arr = 2 * length pts \<and>
        (js_eq (vx (bmin b)) (vx (bmax b)) \<longrightarrow> (\<forall>i<length pts. arr ! (2 * i) = NaN)) \<and>
        (js_eq (vy (bmin b)) (vy (bmax b)) \<longrightarrow> (\<forall>i<length pts. arr ! (2 * i + 1) = NaN)))"
proof -
  let ?c = "foldl collect_tile collect_init tiles"
  let ?b = "\<lparr>bmin = \<lparr>vx = minX ?c, vy = minY ?c\<rparr>, bmax = \<lparr>vx = maxX ?c, vy = maxY ?c\<rparr>\<rparr>"
  have inv: "collect_inv ?c"
    by (simp add: collect_inv_tiles collect_inv_init)
  have pts: "pts = pushed ?c" and b: "bounds st' = Some ?b" and p: "points st' = pts"
    using run by (auto simp: collectPoints_def Let_def)
  from getNormalizedPointsArray_Some [OF b] obtain arr where
    arr: "getNormalizedPointsArray st' = Inr arr" "length arr = 2 * length pts"
    and nth: "\<forall>j<length pts.
        arr ! (2 * j) = normalizeCoordinate (vx (position (pts ! j))) (minX ?c) (maxX ?c) \<and>
        arr ! (2 * j + 1) = normalizeCoordinate (vy (position (pts ! j))) (minY ?c) (maxY ?c)"
    by (auto simp: p)
  have x: "\<forall>i<length pts. arr ! (2 * i) = NaN" if eq: "js_eq (minX ?c) (maxX ?c)"
  proof (intro allI impI)
    fix i assume i: "i < length pts"
    then have "vx (position (pts ! i)) \<in> set (xs_of ?c)"
      by (simp add: xs_of_def pts)
    with inv eq have "vx (position (pts ! i)) = minX ?c"
      by (auto simp: collect_inv_def dest: axis_inv_degenerate)
    moreover from eq have "maxX ?c = minX ?c" by (simp add: js_eq_def)
    ultimately show "arr ! (2 * i) = NaN"
      using nth i by (simp add: normalizeCoordinate_same)
  qed
  have y: "\<forall>i<length pts. arr ! (2 * i + 1) = NaN" if eq: "js_eq (minY ?c) (maxY ?c)"
  proof (intro allI impI)
    fix i assume i: "i < length pts"
    then have "vy (position (pts ! i)) \<in> set (ys_of ?c)"
      by (simp add: ys_of_def pts)
    with inv eq have "vy (position (pts ! i)) = minY ?c"
      by (auto simp: collect_inv_def dest: axis_inv_degenerate)
    moreover from eq have "maxY ?c = minY ?c" by (simp add: js_eq_def)
    ultimately show "arr ! (2 * i + 1) = NaN"
      using nth i by (simp add: normalizeCoordinate_same)
  qed
  show ?thesis
    using arr b x y by (simp add: normalizeCoordinate_degenerate normalizeCoordinate_same)
qed

theorem degenerate_axis_NaN_witness:
  "\<not> is_finite (normalizeCoordinate (Fin 3) (Fin 2) (Fin 2)) \<and>
   (\<exists>arr. getNormalizedPointsArray (snd (collectPoints line_tiles new_ShallowTable)) = Inr arr \<and>
      length arr = 6 \<and> arr ! 1 = NaN \<and> arr ! 3 = NaN \<and> arr ! 5 = NaN)"
proof -
  let ?r = "collectPoints line_tiles new_ShallowTable"
  have b: "bounds (snd ?r) =
      Some \<lparr>bmin = \<lparr>vx = Fin 0, vy = Fin 0\<rparr>, bmax = \<lparr>vx = Fin 5, vy = Fin 0\<rparr>\<rparr>"
    and n: "length (fst ?r) = 3"
    by (simp_all add: line_tiles_def collectPoints_def collect_tile_def collect_row_def
        collect_init_def hasLoadedColumn_def math_min_def math_max_def)
  from degenerate_axis_NaN [of line_tiles new_ShallowTable "fst ?r" "snd ?r" "Fin 3" "Fin 2"]
  obtain b' arr where nf: "\<not> is_finite (normalizeCoordinate (Fin 3) (Fin 2) (Fin 2))"
    and b': "bounds (snd ?r) = Some b'"
    and arr: "getNormalizedPointsArray (snd ?r) = Inr arr" "length arr = 2 * length (fst ?r)"
    and y: "js_eq (vy (bmin b')) (vy (bmax b')) \<longrightarrow> (\<forall>i<length (fst ?r). arr ! (2 * i + 1) = NaN)"
    by auto
  from y b b' n have all: "\<forall>i<3. arr ! (2 * i + 1) = NaN"
    by (simp add: js_eq_def)
  have "arr ! 1 = NaN" using all [rule_format, of 0] by simp
  moreover have "arr ! 3 = NaN" using all [rule_format, of 1] by simp
  moreover have "arr ! 5 = NaN" using all [rule_format, of 2] by simp
  ultimately show ?thesis
    using nf arr n by simp
qed

section \<open>The opacity animation: proofs\<close>

lemma opacity_steps_length:
  "length (foldl (\<lambda>a i. a[i := blend (js_get a i) (targetOpacity (rnd i))]) so [0..<m]) = length so"
  by (induction m) simp_all

lemma opacity_steps_nth:
  "i < length so \<Longrightarrow>
   foldl (\<lambda>a i. a[i := blend (js_get a i) (targetOpacity (rnd i))]) so [0..<m] ! i =
     (if i < m then blend (so ! i) (targetOpacity (rnd i)) else so ! i)"
proof (induction m)
  case 0
  then show ?case by simp
next
  case (Suc m)
  let ?a = "foldl (\<lambda>a i. a[i := blend (js_get a i) (targetOpacity (rnd i))]) so [0..<m]"
  have len: "length ?a = length so"
    by (rule opacity_steps_length)
  have prev: "?a ! i = (if i < m then blend (so ! i) (targetOpacity (rnd i)) else so ! i)"
    using Suc by simp
  show ?case
  proof (cases "i = m")
    case True
    with Suc.prems len prev show ?thesis
      by (simp add: js_get_def)
  next
    case False
    with prev show ?thesis
      by (auto simp: less_Suc_eq)
  qed
qed

lemma length_opacity_loop: "length (opacity_loop rnd so) = length so"
  by (simp add: opacity_loop_def opacity_steps_length)

lemma opacity_loop_nth:
  "i < length so \<Longrightarrow>
   opacity_loop rnd so ! i = (if i < 1000 then blend (so ! i) (targetOpacity (rnd i)) else so ! i)"
  by (simp add: opacity_loop_def opacity_steps_nth)

lemma targetOpacity_range:
  assumes "0 \<le> u" and "u < 1"
  shows "targetOpacity u = Fin (0.05 + u * 0.95) \<and> 0.05 \<le> 0.05 + u * 0.95 \<and> 0.05 + u * 0.95 \<le> 1"
proof -
  have "\<bar>u * 0.95\<bar> \<le> 3" "\<bar>0.05 + u * 0.95\<bar> \<le> 3"
    using assms by (simp_all add: abs_le_iff)
  then have "js_number (u * 0.95) = Fin (u * 0.95)"
    "js_number (0.05 + u * 0.95) = Fin (0.05 + u * 0.95)"
    by (simp_all only: js_number_small)
  then show ?thesis
    using assms by (simp add: targetOpacity_def)
qed

lemma blend_Fin:
  assumes "0 \<le> c" and "c \<le> 1" and "0.05 \<le> t" and "t \<le> 1"
  shows "blend (Fin c) (Fin t) = Fin (c + (t - c) * 0.4)"
proof -
  have "\<bar>t - c\<bar> \<le> 3" "\<bar>(t - c) * 0.4\<bar> \<le> 3" "\<bar>c + (t - c) * 0.4\<bar> \<le> 3"
    using assms by (simp_all add: abs_le_iff field_simps)
  then have "js_number (t - c) = Fin (t - c)" "js_number ((t - c) * 0.4) = Fin ((t - c) * 0.4)"
    "js_number (c + (t - c) * 0.4) = Fin (c + (t - c) * 0.4)"
    by (simp_all only: js_number_small)
  then show ?thesis
    by (simp add: blend_def js_sub_def)
qed

lemma blend_bounds:
  fixes v t :: real
  assumes "0 \<le> v" and "v \<le> 1" and "0.05 \<le> t" and "t \<le> 1"
  shows "0 \<le> v + (t - v) * 0.4 \<and> v + (t - v) * 0.4 \<le> 1"
  using assms by (simp add: field_simps)

lemma blend_in_unit:
  assumes "in_unit c" and "0 \<le> u" and "u < 1"
  shows "in_unit (blend c (targetOpacity u))"
proof -
  from assms(1) obtain v where c: "c = Fin v" and v: "0 \<le> v" "v \<le> 1"
    by (cases c) (auto simp: in_unit_def)
  let ?t = "0.05 + u * 0.95"
  have t: "targetOpacity u = Fin ?t" "0.05 \<le> ?t" "?t \<le> 1"
    using targetOpacity_range [OF assms(2,3)] by simp_all
  have "0 \<le> v + (?t - v) * 0.4 \<and> v + (?t - v) * 0.4 \<le> 1"
    using v t(2,3) by (rule blend_bounds)
  then show ?thesis
    using v t(2,3) by (simp add: c t(1) blend_Fin in_unit_def)
qed

lemma opacity_loop_in_unit:
  assumes "\<forall>v\<in>set so. in_unit v" and "\<forall>i. 0 \<le> rnd i \<and> rnd i < 1"
  shows "\<forall>v\<in>set (opacity_loop rnd so). in_unit v"
proof
  fix v assume "v \<in> set (opacity_loop rnd so)"
  then obtain i where i: "i < length so" and v: "v = opacity_loop rnd so ! i"
    by (auto simp: in_set_conv_nth length_opacity_loop)
  from i assms(1) have "in_unit (so ! i)" by simp
  with assms(2) show "in_unit v"
    unfolding v by (simp add: opacity_loop_nth [OF i] blend_in_unit)
qed

lemma updateOpacities_opacities:
  "starOpacities r = Some so \<Longrightarrow>
   starOpacities (snd (updateOpacities rnd r)) = Some so \<or>
   starOpacities (snd (updateOpacities rnd r)) = Some (opacity_loop rnd so)"
  by (simp add: updateOpacities_def Let_def split: option.splits)

lemma updateOpacities_in_unit:
  assumes "starOpacities r = Some so" and "\<forall>v\<in>set so. in_unit v"
    and "\<forall>i. 0 \<le> rnd i \<and> rnd i < 1"
  shows "\<exists>so'. starOpacities (snd (updateOpacities rnd r)) = Some so' \<and>
           length so' = length so \<and> (\<forall>v\<in>set so'. in_unit v)"
  using updateOpacities_opacities [OF assms(1), of rnd] assms(2)
    opacity_loop_in_unit [OF assms(2,3)]
  by (auto simp: length_opacity_loop)

lemma updateOpacities_times_in_unit:
  assumes "starOpacities r = Some so" and "\<forall>v\<in>set so. in_unit v"
    and "\<forall>k i. 0 \<le> rnd k i \<and> rnd k i < 1"
  shows "\<exists>so'. starOpacities (updateOpacities_times n rnd r) = Some so' \<and>
           length so' = length so \<and> (\<forall>v\<in>set so'. in_unit v)"
proof (induction n)
  case 0
  with assms show ?case by simp
next
  case (Suc n)
  then obtain s where s: "starOpacities (updateOpacities_times n rnd r) = Some s"
    "length s = length so" "\<forall>v\<in>set s. in_unit v"
    by blast
  from assms(3) have "\<forall>i. 0 \<le> rnd n i \<and> rnd n i < 1" by simp
  from updateOpacities_in_unit [OF s(1) s(3) this] s(2) show ?case
    by auto
qed

lemma updateOpacities_ready:
  "device r = Some dev \<Longrightarrow> opacityBuffer r = Some ob \<Longrightarrow> starOpacities r = Some so \<Longrightarrow>
   updateOpacities rnd r =
     (None, r\<lparr>starOpacities := Some (opacity_loop rnd so),
               device := Some (writeBuffer dev ob (opacity_loop rnd so))\<rparr>)"
  by (simp add: updateOpacities_def Let_def)

text \<open>
  Claim C3. Starting from opacities that all lie in \<open>[0, 1]\<close>, with every random number
  in \<open>[0, 1)\<close>: after any number of updates the opacities are as many as before and all
  lie in \<open>[0, 1]\<close>; and when the device and the opacity buffer exist, one update replaces
  each of the first 1000 opacities \<open>c\<close> by \<open>c + (t - c) * 0.4\<close> for a target
  \<open>t = 0.05 + random * 0.95\<close>, which lies in \<open>[0.05, 1]\<close>. Arithmetic is exact here.
\<close>

theorem opacities_stay_in_unit:
  assumes so: "starOpacities r = Some so"
    and unit: "\<forall>v\<in>set so. in_unit v"
    and rnd: "\<forall>k i. 0 \<le> rnd k i \<and> rnd k i < 1"
  shows "(\<exists>so'. starOpacities (updateOpacities_times n rnd r) = Some so' \<and>
            length so' = length so \<and> (\<forall>v\<in>set so'. in_unit v)) \<and>
         (device r \<noteq> None \<and> opacityBuffer r \<noteq> None \<longrightarrow>
            (\<exists>so1. starOpacities (snd (updateOpacities (rnd 0) r)) = Some so1 \<and>
               (\<forall>i<length so. i < 1000 \<longrightarrow>
                  (\<exists>c t. so ! i = Fin c \<and> t = 0.05 + rnd 0 i * 0.95 \<and> 0.05 \<le> t \<and> t \<le> 1 \<and>
                     so1 ! i = Fin (c + (t - c) * 0.4)))))"
proof
  show "\<exists>so'. starOpacities (updateOpacities_times n rnd r) = Some so' \<and>
            length so' = length so \<and> (\<forall>v\<in>set so'. in_unit v)"
    using so unit rnd by (rule updateOpacities_times_in_unit)
next
  show "device r \<noteq> None \<and> opacityBuffer r \<noteq> None \<longrightarrow>
            (\<exists>so1. starOpacities (snd (updateOpacities (rnd 0) r)) = Some so1 \<and>
               (\<forall>i<length so. i < 1000 \<longrightarrow>
                  (\<exists>c t. so ! i = Fin c \<and> t = 0.05 + rnd 0 i * 0.95 \<and> 0.05 \<le> t \<and> t \<le> 1 \<and>
                     so1 ! i = Fin (c + (t - c) * 0.4))))"
  proof
    assume "device r \<noteq> None \<and> opacityBuffer r \<noteq> None"
    then obtain dev ob where "device r = Some dev" "opacityBuffer r = Some ob"
      by auto
    then have upd: "starOpacities (snd (updateOpacities (rnd 0) r)) = Some (opacity_loop (rnd 0) so)"
      using so by (simp add: updateOpacities_ready)
    have "\<exists>c t. so ! i = Fin c \<and> t = 0.05 + rnd 0 i * 0.95 \<and> 0.05 \<le> t \<and> t \<le> 1 \<and>
             opacity_loop (rnd 0) so ! i = Fin (c + (t - c) * 0.4)"
      if i: "i < length so" "i < 1000" for i
    proof -
      from unit i(1) have "in_unit (so ! i)" by simp
      then obtain c where c: "so ! i = Fin c" "0 \<le> c" "c \<le> 1"
        by (cases "so ! i") (auto simp: in_unit_def)
      from rnd have u: "0 \<le> rnd 0 i" "rnd 0 i < 1" by simp_all
      show ?thesis
        using targetOpacity_range [OF u] i c
        by (simp add: opacity_loop_nth blend_Fin)
    qed
    with upd show "\<exists>so1. starOpacities (snd (updateOpacities (rnd 0) r)) = Some so1 \<and>
               (\<forall>i<length so. i < 1000 \<longrightarrow>
                  (\<exists>c t. so ! i = Fin c \<and> t = 0.05 + rnd 0 i * 0.95 \<and> 0.05 \<le> t \<and> t \<le> 1 \<and>
                     so1 ! i = Fin (c + (t - c) * 0.4)))"
      by blast
  qed
qed

theorem opacities_stay_in_unit_witness:
  "(\<exists>so'. starOpacities (updateOpacities_times 1000 half_random dim_starfield) = Some so' \<and>
      length so' = 1000 \<and> in_unit (so' ! 0) \<and> in_unit (so' ! 999)) \<and>
   (\<exists>so1. starOpacities (snd (updateOpacities (half_random 0) dim_starfield)) = Some so1 \<and>
      so1 ! 0 = Fin (51 / 100) \<and> so1 ! 999 = Fin (51 / 100))"
proof -
  have so: "starOpacities dim_starfield = Some (replicate 1000 (Fin (1 / 2)))"
    by (simp add: dim_starfield_def)
  have unit: "\<forall>v\<in>set (replicate 1000 (Fin (1 / 2))). in_unit v"
    by (simp add: in_unit_def)
  have rnd: "\<forall>k i. 0 \<le> half_random k i \<and> half_random k i < 1"
    by (simp add: half_random_def)
  have ready: "device dim_starfield \<noteq> None \<and> opacityBuffer dim_starfield \<noteq> None"
    by (simp add: dim_starfield_def)
  from opacities_stay_in_unit [OF so unit rnd, of 1000] ready
  obtain so' so1 where
    a: "starOpacities (updateOpacities_times 1000 half_random dim_starfield) = Some so'"
       "length so' = length (replicate 1000 (Fin (1 / 2)))" "\<forall>v\<in>set so'. in_unit v"
    and b: "starOpacities (snd (updateOpacities (half_random 0) dim_starfield)) = Some so1"
    and c: "\<forall>i<length (replicate 1000 (Fin (1 / 2))). i < 1000 \<longrightarrow>
              (\<exists>c t. replicate 1000 (Fin (1 / 2)) ! i = Fin c \<and>
                 t = 0.05 + half_random 0 i * 0.95 \<and> 0.05 \<le> t \<and> t \<le> 1 \<and>
                 so1 ! i = Fin (c + (t - c) * 0.4))"
    by blast
  from a have "length so' = 1000" "in_unit (so' ! 0)" "in_unit (so' ! 999)"
    by simp_all
  moreover have "so1 ! i = Fin (51 / 100)" if "i < 1000" for i
  proof -
    from c [rule_format, of i] that obtain v t where
      f: "replicate 1000 (Fin (1 / 2)) ! i = Fin v" "t = 0.05 + half_random 0 i * 0.95"
      "so1 ! i = Fin (v + (t - v) * 0.4)"
      by auto
    from f(1) that have v: "v = 1 / 2"
      by simp
    from f(2) have t: "t = 21 / 40"
      by (simp add: half_random_def)
    from f(3) show ?thesis
      unfolding v t by simp
  qed
  then have "so1 ! 0 = Fin (51 / 100)" "so1 ! 999 = Fin (51 / 100)"
    by simp_all
  ultimately show ?thesis
    using a(1) b by simp
qed

text \<open>
  Claim C4 as stated fails for the point renderer, whose guard tests the vertex buffer
  and the vertex count only: with data set and the context missing (as after an
  \<open>initialize\<close> that failed to get the context), \<open>render\<close> raises a TypeError; so it
  does with the device missing.
\<close>

theorem render_without_context_counterexample:
  "canvas_context (loaded_points\<lparr>canvas_context := None\<rparr>) = None \<and>
   render (loaded_points\<lparr>canvas_context := None\<rparr>) =
     (Some TypeError, loaded_points\<lparr>canvas_context := None\<rparr>) \<and>
   render (loaded_points\<lparr>device := None\<rparr>) = (Some TypeError, loaded_points\<lparr>device := None\<rparr>)"
  by (simp add: render_def loaded_points_def)

text \<open>
  Claim C4, amended. The starfield renderer's \<open>render\<close> with the device, the context,
  the pipeline, the vertex buffer, the opacity buffer or the opacity array missing
  returns without an exception, leaves the renderer as it was and submits nothing; the
  point renderer's \<open>render\<close> does so with no vertex buffer or a vertex count of zero.
\<close>

theorem render_skips_when_not_ready:
  "(device r = None \<or> canvas_context r = None \<or> pipeline r = None \<or> vertexBuffer r = None \<or>
    opacityBuffer r = None \<or> starOpacities r = None \<longrightarrow>
      render_star rnd r = (None, r) \<and> submissions (snd (render_star rnd r)) = submissions r) \<and>
   (vertexBuffer p = None \<or> vertexCount p = 0 \<longrightarrow>
      render p = (None, p) \<and> submissions (snd (render p)) = submissions p)"
  by (auto simp: render_star_def render_def split: option.splits)

theorem render_skips_when_not_ready_witness:
  "render_star (half_random 0) new_StarRenderer = (None, new_StarRenderer) \<and>
   render_star (half_random 0) (dim_starfield\<lparr>opacityBuffer := None\<rparr>) =
     (None, dim_starfield\<lparr>opacityBuffer := None\<rparr>) \<and>
   submissions (snd (render_star (half_random 0) (dim_starfield\<lparr>opacityBuffer := None\<rparr>))) = 0 \<and>
   render new_PointRenderer = (None, new_PointRenderer)"
  using render_skips_when_not_ready
      [where r = new_StarRenderer and p = new_PointRenderer and rnd = "half_random 0"]
    render_skips_when_not_ready
      [where r = "dim_starfield\<lparr>opacityBuffer := None\<rparr>" and p = new_PointRenderer
         and rnd = "half_random 0"]
  by (simp add: new_StarRenderer_def new_PointRenderer_def dim_starfield_def submissions_def
      starfield_device_def)

lemma render_star_ready:
  assumes "device r = Some dev" "canvas_context r = Some ctx" "pipeline r = Some pl"
    "vertexBuffer r = Some vb" "opacityBuffer r = Some ob" "starOpacities r = Some so"
  shows "render_star rnd r =
     (None, r\<lparr>starOpacities := Some (opacity_loop rnd so),
               device := Some (submit
                 (writeBuffer (writeBuffer dev ob (opacity_loop rnd so)) ob (opacity_loop rnd so))
                 \<lparr>pass_pipeline = pl, pass_vertexBuffers = [vb, ob], pass_draw = 1000\<rparr>)\<rparr>)"
  using assms by (simp add: render_star_def updateOpacities_ready)

text \<open>
  Claim C6 as stated fails: with no opacity buffer allocated (or on a new renderer)
  \<open>updateOpacities\<close> returns normally and changes nothing; no error is raised.
\<close>

theorem updateOpacities_silent_counterexample:
  "opacityBuffer (dim_starfield\<lparr>opacityBuffer := None\<rparr>) = None \<and>
   updateOpacities (half_random 0) (dim_starfield\<lparr>opacityBuffer := None\<rparr>) =
     (None, dim_starfield\<lparr>opacityBuffer := None\<rparr>) \<and>
   updateOpacities (half_random 0) new_StarRenderer = (None, new_StarRenderer)"
  by (simp add: updateOpacities_def dim_starfield_def new_StarRenderer_def)

text \<open>
  Claim C6, amended. With the device, the opacity buffer or the opacity array missing,
  \<open>updateOpacities\<close> returns silently and changes nothing. With all three present and
  the buffer of the size of the opacity array, it writes the whole updated array into
  that same buffer: the buffer's contents are the new opacities, no buffer is allocated,
  every other buffer is untouched and nothing is submitted.
\<close>

theorem updateOpacities_in_place:
  "(device r = None \<or> opacityBuffer r = None \<or> starOpacities r = None \<longrightarrow>
      updateOpacities rnd r = (None, r)) \<and>
   (device r = Some dev \<and> opacityBuffer r = Some ob \<and> starOpacities r = Some so \<and>
    memory dev ob = Some old \<and> length old = length so \<longrightarrow>
      (\<exists>dev'. updateOpacities rnd r =
                 (None, r\<lparr>starOpacities := Some (opacity_loop rnd so), device := Some dev'\<rparr>) \<and>
               length (opacity_loop rnd so) = length so \<and>
               memory dev' ob = Some (opacity_loop rnd so) \<and>
               (\<forall>h. h \<noteq> ob \<longrightarrow> memory dev' h = memory dev h) \<and>
               next_buffer dev' = next_buffer dev \<and>
               submitted dev' = submitted dev))"
  by (auto simp: updateOpacities_def Let_def writeBuffer_def length_opacity_loop
      split: option.splits)

theorem updateOpacities_in_place_witness:
  "\<exists>dev'. updateOpacities (half_random 0) dim_starfield =
      (None, dim_starfield\<lparr>starOpacities := Some (opacity_loop (half_random 0) (replicate 1000 (Fin (1 / 2)))),
                           device := Some dev'\<rparr>) \<and>
      memory dev' 1 = Some (opacity_loop (half_random 0) (replicate 1000 (Fin (1 / 2)))) \<and>
      memory dev' 0 = Some (replicate 2000 (Fin 0)) \<and>
      next_buffer dev' = 2 \<and> submitted dev' = []"
proof -
  have "device dim_starfield = Some starfield_device \<and> opacityBuffer dim_starfield = Some 1 \<and>
      starOpacities dim_starfield = Some (replicate 1000 (Fin (1 / 2))) \<and>
      memory starfield_device 1 = Some (replicate 1000 (Fin (1 / 2))) \<and>
      length (replicate 1000 (Fin (1 / 2)) :: number list) = length (replicate 1000 (Fin (1 / 2)) :: number list)"
    by (simp add: dim_starfield_def starfield_device_def)
  with updateOpacities_in_place
    [of dim_starfield "half_random 0" starfield_device 1 "replicate 1000 (Fin (1 / 2))"
        "replicate 1000 (Fin (1 / 2))"]
  obtain dev' where d: "updateOpacities (half_random 0) dim_starfield =
      (None, dim_starfield\<lparr>starOpacities := Some (opacity_loop (half_random 0) (replicate 1000 (Fin (1 / 2)))),
                           device := Some dev'\<rparr>)"
      "memory dev' 1 = Some (opacity_loop (half_random 0) (replicate 1000 (Fin (1 / 2))))"
      "\<forall>h. h \<noteq> 1 \<longrightarrow> memory dev' h = memory starfield_device h"
      "next_buffer dev' = next_buffer starfield_device"
      "submitted dev' = submitted starfield_device"
    by blast
  from d(3) have "memory dev' 0 = Some (replicate 2000 (Fin 0))"
    by (simp add: starfield_device_def)
  with d show ?thesis
    by (intro exI [of _ dev']) (simp add: starfield_device_def)
qed

section \<open>The point renderers: proofs\<close>

lemma length_six: "length (foldl (\<lambda>vd j. vd[b + j * 2 := x, b + j * 2 + 1 := y]) vd [0..<m]) = length vd"
  by (induction m) simp_all

lemma six_outside:
  "k < b \<or> b + 2 * m \<le> k \<Longrightarrow>
   foldl (\<lambda>vd j. vd[b + j * 2 := x, b + j * 2 + 1 := y]) vd [0..<m] ! k = vd ! k"
  by (induction m) auto

lemma six_inside:
  "b + 2 * m \<le> length vd \<Longrightarrow> j < m \<Longrightarrow>
   foldl (\<lambda>vd j. vd[b + j * 2 := x, b + j * 2 + 1 := y]) vd [0..<m] ! (b + j * 2) = x \<and>
   foldl (\<lambda>vd j. vd[b + j * 2 := x, b + j * 2 + 1 := y]) vd [0..<m] ! (b + j * 2 + 1) = y"
proof (induction m)
  case 0
  then show ?case by simp
next
  case (Suc m)
  let ?prev = "foldl (\<lambda>vd j. vd[b + j * 2 := x, b + j * 2 + 1 := y]) vd [0..<m]"
  have len: "length ?prev = length vd"
    by (rule length_six)
  show ?case
  proof (cases "j = m")
    case True
    with Suc.prems len show ?thesis
      by (simp add: nth_list_update)
  next
    case False
    with Suc.prems have "j < m" "b + 2 * m \<le> length vd"
      by simp_all
    with Suc.IH have "?prev ! (b + j * 2) = x \<and> ?prev ! (b + j * 2 + 1) = y"
      by simp
    with \<open>j < m\<close> show ?thesis
      by (simp add: nth_list_update)
  qed
qed

lemma length_quad_vertices: "length (quad_vertices ps vd i) = length vd"
  unfolding quad_vertices_def Let_def by (rule length_six)

lemma quad_vertices_outside:
  "k < i * 12 \<or> i * 12 + 12 \<le> k \<Longrightarrow> quad_vertices ps vd i ! k = vd ! k"
  using six_outside [of k "i * 12" 6] by (simp add: quad_vertices_def Let_def)

lemma quad_vertices_inside:
  assumes "i * 12 + 12 \<le> length vd" and "j < 6"
  shows "quad_vertices ps vd i ! (i * 12 + j * 2) = js_get ps (i * 2) \<and>
         quad_vertices ps vd i ! (i * 12 + j * 2 + 1) = js_get ps (i * 2 + 1)"
  using six_inside [of "i * 12" 6 vd j] assms by (simp add: quad_vertices_def Let_def)

lemma length_quad_loop: "length (foldl (quad_vertices ps) vd [0..<n]) = length vd"
  by (induction n) (simp_all add: length_quad_vertices)

lemma quad_loop_nth:
  "n * 12 \<le> length vd \<Longrightarrow> i < n \<Longrightarrow> j < 6 \<Longrightarrow>
   foldl (quad_vertices ps) vd [0..<n] ! (i * 12 + j * 2) = js_get ps (i * 2) \<and>
   foldl (quad_vertices ps) vd [0..<n] ! (i * 12 + j * 2 + 1) = js_get ps (i * 2 + 1)"
proof (induction n)
  case 0
  then show ?case by simp
next
  case (Suc n)
  let ?prev = "foldl (quad_vertices ps) vd [0..<n]"
  have len: "length ?prev = length vd"
    by (rule length_quad_loop)
  show ?case
  proof (cases "i = n")
    case True
    have "n * 12 + 12 \<le> length ?prev"
      using Suc.prems(1) len by simp
    from quad_vertices_inside [OF this Suc.prems(3), of ps] True show ?thesis
      by simp
  next
    case False
    with Suc.prems have i: "i < n" by simp
    with Suc.prems(3) have "i * 12 + j * 2 < n * 12" "i * 12 + j * 2 + 1 < n * 12"
      by arith+
    then have "quad_vertices ps ?prev n ! (i * 12 + j * 2) = ?prev ! (i * 12 + j * 2)"
      "quad_vertices ps ?prev n ! (i * 12 + j * 2 + 1) = ?prev ! (i * 12 + j * 2 + 1)"
      by (simp_all add: quad_vertices_outside)
    moreover have "n * 12 \<le> length vd"
      using Suc.prems(1) by simp
    ultimately show ?thesis
      using Suc.IH [OF _ i Suc.prems(3)] by simp
  qed
qed

lemma floor_twelve: "nat \<lfloor>12 * real N\<rfloor> = 12 * N"
proof -
  have "12 * real N = real (12 * N)"
    by simp
  then show ?thesis
    by (simp only: floor_of_nat nat_int)
qed

text \<open>
  Claim C8. In the quad renderer, for an array of \<open>2 N\<close> floats with \<open>N > 0\<close> and a
  device present, \<open>setDataArray\<close> raises nothing, sets the vertex count to \<open>6 N\<close> and
  fills a new buffer of \<open>6 N\<close> vertices in which vertex \<open>j < 6\<close> of point \<open>i < N\<close>
  carries that point's \<open>(x, y)\<close>; \<open>render\<close> (context and pipeline present) then
  submits one pass drawing \<open>6 N\<close> vertices from that buffer.
\<close>

theorem quad_six_vertices_per_point:
  assumes len: "length ps = 2 * N" and pos: "0 < N"
    and dev: "device r = Some dev"
    and ctx: "canvas_context r = Some ctx" and pl: "pipeline r = Some pl"
  shows "\<exists>vd dev'.
      setDataArray_quad (Some ps) r =
        (None, r\<lparr>vertexCount := real (6 * N), vertexBuffer := Some (next_buffer dev),
                  device := Some dev'\<rparr>) \<and>
      memory dev' (next_buffer dev) = Some vd \<and> length vd = 2 * (6 * N) \<and>
      (\<forall>i<N. \<forall>j<6. vd ! (i * 12 + j * 2) = ps ! (i * 2) \<and>
                       vd ! (i * 12 + j * 2 + 1) = ps ! (i * 2 + 1)) \<and>
      submitted dev' = submitted dev \<and>
      render (snd (setDataArray_quad (Some ps) r)) =
        (None, r\<lparr>vertexCount := real (6 * N), vertexBuffer := Some (next_buffer dev),
                  device := Some (submit dev'
                    \<lparr>pass_pipeline = pl, pass_vertexBuffers = [next_buffer dev],
                     pass_draw = real (6 * N)\<rparr>)\<rparr>)"
proof -
  let ?vd = "foldl (quad_vertices ps) (replicate (12 * N) (Fin 0)) [0..<N]"
  let ?h = "next_buffer dev"
  let ?dev1 = "dev\<lparr>memory := (memory dev)(?h \<mapsto> replicate (12 * N) (Fin 0)),
                    next_buffer := ?h + 1\<rparr>"
  let ?dev' = "writeBuffer ?dev1 ?h ?vd"
  have lvd: "length ?vd = 12 * N"
    by (simp add: length_quad_loop)
  have set: "setDataArray_quad (Some ps) r =
      (None, r\<lparr>vertexCount := real (6 * N), vertexBuffer := Some ?h, device := Some ?dev'\<rparr>)"
    using pos dev len
    by (simp add: setDataArray_quad_def Let_def createBuffer_def floor_twelve lvd)
  have mem: "memory ?dev' ?h = Some ?vd" and sub: "submitted ?dev' = submitted dev"
    by (simp_all add: writeBuffer_def lvd)
  have nth: "\<forall>i<N. \<forall>j<6. ?vd ! (i * 12 + j * 2) = ps ! (i * 2) \<and>
                       ?vd ! (i * 12 + j * 2 + 1) = ps ! (i * 2 + 1)"
  proof (intro allI impI)
    fix i j assume i: "i < N" and j: "j < (6 :: nat)"
    have "N * 12 \<le> length (replicate (12 * N) (Fin 0 :: number))"
      by simp
    from quad_loop_nth [OF this i j, of ps] i len
    show "?vd ! (i * 12 + j * 2) = ps ! (i * 2) \<and> ?vd ! (i * 12 + j * 2 + 1) = ps ! (i * 2 + 1)"
      by (simp add: js_get_def)
  qed
  have rnd: "render (snd (setDataArray_quad (Some ps) r)) =
        (None, r\<lparr>vertexCount := real (6 * N), vertexBuffer := Some ?h,
                  device := Some (submit ?dev'
                    \<lparr>pass_pipeline = pl, pass_vertexBuffers = [?h],
                     pass_draw = real (6 * N)\<rparr>)\<rparr>)"
    using pos ctx pl by (simp add: set render_def)
  show ?thesis
    using set mem lvd nth sub rnd
    by (intro exI [of _ ?vd] exI [of _ ?dev']) simp
qed

theorem quad_six_vertices_per_point_witness:
  "\<exists>vd dev'.
      setDataArray_quad (Some two_points) ready_quad =
        (None, ready_quad\<lparr>vertexCount := 12, vertexBuffer := Some 0, device := Some dev'\<rparr>) \<and>
      memory dev' 0 = Some vd \<and> length vd = 24 \<and>
      vd ! 0 = Fin 0 \<and> vd ! 1 = Fin 1 \<and> vd ! 10 = Fin 0 \<and> vd ! 11 = Fin 1 \<and>
      vd ! 12 = Fin 2 \<and> vd ! 13 = Fin 3 \<and> vd ! 22 = Fin 2 \<and> vd ! 23 = Fin 3 \<and>
      render (snd (setDataArray_quad (Some two_points) ready_quad)) =
        (None, ready_quad\<lparr>vertexCount := 12, vertexBuffer := Some 0,
                  device := Some (submit dev'
                    \<lparr>pass_pipeline = Pipeline triangle_list, pass_vertexBuffers = [0],
                     pass_draw = 12\<rparr>)\<rparr>)"
proof -
  have h: "length two_points = 2 * 2" "0 < (2 :: nat)"
    "device ready_quad = Some \<lparr>memory = Map.empty, next_buffer = 0, submitted = []\<rparr>"
    "canvas_context ready_quad = Some CanvasContext"
    "pipeline ready_quad = Some (Pipeline triangle_list)"
    by (simp_all add: two_points_def ready_quad_def)
  from quad_six_vertices_per_point [OF h] obtain vd dev' where
    a: "setDataArray_quad (Some two_points) ready_quad =
        (None, ready_quad\<lparr>vertexCount := real (6 * 2), vertexBuffer := Some 0, device := Some dev'\<rparr>)"
    and b: "memory dev' 0 = Some vd" "length vd = 2 * (6 * 2)"
    and c: "\<forall>i<2. \<forall>j<6. vd ! (i * 12 + j * 2) = two_points ! (i * 2) \<and>
                       vd ! (i * 12 + j * 2 + 1) = two_points ! (i * 2 + 1)"
    and d: "render (snd (setDataArray_quad (Some two_points) ready_quad)) =
        (None, ready_quad\<lparr>vertexCount := real (6 * 2), vertexBuffer := Some 0,
                  device := Some (submit dev'
                    \<lparr>pass_pipeline = Pipeline triangle_list, pass_vertexBuffers = [0],
                     pass_draw = real (6 * 2)\<rparr>)\<rparr>)"
    by auto
  have "vd ! 0 = Fin 0 \<and> vd ! 1 = Fin 1"
    using c [rule_format, of 0 0] by (simp add: two_points_def)
  moreover have "vd ! 10 = Fin 0 \<and> vd ! 11 = Fin 1"
    using c [rule_format, of 0 5] by (simp add: two_points_def)
  moreover have "vd ! 12 = Fin 2 \<and> vd ! 13 = Fin 3"
    using c [rule_format, of 1 0] by (simp add: two_points_def)
  moreover have "vd ! 22 = Fin 2 \<and> vd ! 23 = Fin 3"
    using c [rule_format, of 1 5] by (simp add: two_points_def)
  ultimately show ?thesis
    using a b d by (intro exI [of _ vd] exI [of _ dev']) simp
qed

lemma setDataArray_ready:
  assumes "ps \<noteq> []" and "device r = Some dev"
  shows "setDataArray (Some ps) r =
     (None, r\<lparr>vertexCount := real (length ps) / 2, vertexBuffer := Some (next_buffer dev),
               device := Some (dev\<lparr>memory := (memory dev)(next_buffer dev \<mapsto> ps),
                                    next_buffer := next_buffer dev + 1\<rparr>)\<rparr>)"
  using assms by (simp add: setDataArray_def Let_def createBuffer_def writeBuffer_def)



end
